theory Spec2Isabelle
  imports Complex_Main
begin

section \<open>AgentLoop (src/lib/agent/AgentLoop.ts)\<close>

subsection \<open>Data model\<close>

text \<open>
  The \<open>status\<close> field of \<open>AgentState\<close> is a union of seven string literals.
\<close>

datatype status = Idle | Planning | Executing | Observing | Updating | Completed | Error

text \<open>
  \<open>results\<close> and the \<open>result\<close> of a history entry have type \<open>any\<close>. The code stores four
  shapes there: the plan (an array of strings), the object
  \<open>{stepCompleted, output}\<close> built by \<open>executeStep\<close>, the object
  \<open>{analysisOf, feedback}\<close> built by \<open>observeResult\<close> and the object
  \<open>{updatedPlan}\<close> built by \<open>updatePlan\<close>.
\<close>

datatype jsval =
    PlanValue "string list"
  | StepResult string string
  | Observation jsval string
  | UpdatedPlan "string list"

record history_entry =
  action :: string
  result :: jsval
  timestamp :: nat

record AgentState =
  status :: status
  currentTask :: "string option"
  plan :: "string list"
  progress :: int
  currentStep :: "string option"
  results :: "jsval list"
  error :: "string option"
  history :: "history_entry list"

text \<open>
  \<open>Partial<AgentState>\<close>: every key may be absent. \<open>None\<close> is an absent key, \<open>Some v\<close>
  a key present with value \<open>v\<close> (for the nullable fields \<open>v\<close> is itself an option,
  \<open>Some None\<close> being the key present with value \<open>null\<close>).
\<close>

record AgentState_partial =
  set_status :: "status option"
  set_currentTask :: "string option option"
  set_plan :: "string list option"
  set_progress :: "int option"
  set_currentStep :: "string option option"
  set_results :: "jsval list option"
  set_error :: "string option option"
  set_history :: "history_entry list option"

definition no_keys :: AgentState_partial where
  "no_keys = \<lparr>set_status = None, set_currentTask = None, set_plan = None, set_progress = None,
     set_currentStep = None, set_results = None, set_error = None, set_history = None\<rparr>"

text \<open>The object spread \<open>{ ...this.state, ...updates }\<close>.\<close>

definition spread :: "AgentState \<Rightarrow> AgentState_partial \<Rightarrow> AgentState" where
  "spread s u =
     \<lparr>status = (case set_status u of None \<Rightarrow> status s | Some v \<Rightarrow> v),
      currentTask = (case set_currentTask u of None \<Rightarrow> currentTask s | Some v \<Rightarrow> v),
      plan = (case set_plan u of None \<Rightarrow> plan s | Some v \<Rightarrow> v),
      progress = (case set_progress u of None \<Rightarrow> progress s | Some v \<Rightarrow> v),
      currentStep = (case set_currentStep u of None \<Rightarrow> currentStep s | Some v \<Rightarrow> v),
      results = (case set_results u of None \<Rightarrow> results s | Some v \<Rightarrow> v),
      error = (case set_error u of None \<Rightarrow> error s | Some v \<Rightarrow> v),
      history = (case set_history u of None \<Rightarrow> history s | Some v \<Rightarrow> v)\<rparr>"

text \<open>
  \<open>startTask\<close> is an \<open>async\<close> function: it runs until an \<open>await\<close> on a timer, is
  suspended, and is resumed when the timer fires. A continuation names the \<open>await\<close> at
  which the call is suspended, with the local variables that are live there:
  \<^item> \<open>AwaitPlan plan\<close>: inside \<open>planTask\<close>, the local \<open>plan\<close> already built;
  \<^item> \<open>AwaitExec i step\<close>: inside \<open>executeStep(step)\<close> of loop iteration \<open>i\<close>;
  \<^item> \<open>AwaitObserve i result\<close>: inside \<open>observeResult(result)\<close> of iteration \<open>i\<close>;
  \<^item> \<open>AwaitUpdate i observation\<close>: inside \<open>updatePlan(observation)\<close> of iteration \<open>i\<close>.
\<close>

datatype continuation =
    AwaitPlan "string list"
  | AwaitExec nat string
  | AwaitObserve nat jsval
  | AwaitUpdate nat jsval

text \<open>
  The object. A callback is a function value, compared by reference (\<open>cb !== callback\<close>):
  it is modelled by a number that stands for the reference. The first three fields are
  the fields of the class. The other two belong to the run, not to the class:
  \<open>suspended\<close> is the continuation of the \<open>startTask\<close> call in flight (there is at most
  one, because of the guard), and \<open>delivered\<close> logs every callback invocation made by
  \<open>updateState\<close>, in order, with the snapshot it was given.
\<close>

record AgentLoop =
  state :: AgentState
  taskRunning :: bool
  updateCallbacks :: "nat list"
  suspended :: "continuation option"
  delivered :: "(nat \<times> AgentState) list"

definition new_AgentLoop :: AgentLoop where
  "new_AgentLoop =
     \<lparr>state = \<lparr>status = Idle, currentTask = None, plan = [], progress = 0, currentStep = None,
                results = [], error = None, history = []\<rparr>,
      taskRunning = False, updateCallbacks = [], suspended = None, delivered = []\<rparr>"

definition getState :: "AgentLoop \<Rightarrow> AgentState" where
  "getState a = state a"

subsection \<open>Subscriptions\<close>

definition onStateUpdate :: "nat \<Rightarrow> AgentLoop \<Rightarrow> AgentLoop" where
  "onStateUpdate callback a = a\<lparr>updateCallbacks := updateCallbacks a @ [callback]\<rparr>"

text \<open>The closure returned by \<open>onStateUpdate(callback)\<close>, when it is invoked.\<close>

definition unsubscribe :: "nat \<Rightarrow> AgentLoop \<Rightarrow> AgentLoop" where
  "unsubscribe callback a =
     a\<lparr>updateCallbacks := filter (\<lambda>cb. cb \<noteq> callback) (updateCallbacks a)\<rparr>"

subsection \<open>The update primitive\<close>

definition updateState :: "AgentState_partial \<Rightarrow> AgentLoop \<Rightarrow> AgentLoop" where
  "updateState updates a =
     (let s = spread (state a) updates
      in a\<lparr>state := s,
           delivered := delivered a @ map (\<lambda>cb. (cb, s)) (updateCallbacks a)\<rparr>)"

subsection \<open>String literals of the source\<close>

text \<open>
  The source's literals are Japanese text; a \<open>string\<close> here holds their UTF-8 bytes.
  \<open>lit_task\<close> is the prefix of every plan entry up to and including the opening double
  quote; the four suffixes start at the closing double quote.
\<close>

definition lit_task :: string where
  "lit_task = [CHR 0xE3, CHR 0x82, CHR 0xBF, CHR 0xE3, CHR 0x82, CHR 0xB9, CHR 0xE3, CHR 0x82,
     CHR 0xAF, CHR 0x20, CHR 0x22]"

definition lit_gather :: string where
  "lit_gather = [CHR 0x22, CHR 0x20, CHR 0xE3, CHR 0x81, CHR 0xAE, CHR 0xE6, CHR 0x83, CHR 0x85,
     CHR 0xE5, CHR 0xA0, CHR 0xB1, CHR 0xE5, CHR 0x8F, CHR 0x8E, CHR 0xE9, CHR 0x9B, CHR 0x86]"

definition lit_analyse :: string where
  "lit_analyse = [CHR 0x22, CHR 0x20, CHR 0xE3, CHR 0x81, CHR 0xAE, CHR 0xE5, CHR 0x88, CHR 0x86,
     CHR 0xE6, CHR 0x9E, CHR 0x90]"

definition lit_execute :: string where
  "lit_execute = [CHR 0x22, CHR 0x20, CHR 0xE3, CHR 0x81, CHR 0xAE, CHR 0xE5, CHR 0xAE, CHR 0x9F,
     CHR 0xE8, CHR 0xA1, CHR 0x8C]"

definition lit_summary :: string where
  "lit_summary = [CHR 0x22, CHR 0x20, CHR 0xE3, CHR 0x81, CHR 0xAE, CHR 0xE7, CHR 0xB5, CHR 0x90,
     CHR 0xE6, CHR 0x9E, CHR 0x9C, CHR 0xE3, CHR 0x81, CHR 0xAE, CHR 0xE3, CHR 0x81, CHR 0xBE,
     CHR 0xE3, CHR 0x81, CHR 0xA8, CHR 0xE3, CHR 0x82, CHR 0x81]"

definition lit_output :: string where
  "lit_output = [CHR 0x20, CHR 0xE3, CHR 0x81, CHR 0xAE, CHR 0xE5, CHR 0xAE, CHR 0x9F, CHR 0xE8,
     CHR 0xA1, CHR 0x8C, CHR 0xE7, CHR 0xB5, CHR 0x90, CHR 0xE6, CHR 0x9E, CHR 0x9C]"

definition lit_feedback :: string where
  "lit_feedback = [CHR 0xE6, CHR 0xAD, CHR 0xA3, CHR 0xE5, CHR 0xB8, CHR 0xB8, CHR 0xE3, CHR 0x81,
     CHR 0xAB, CHR 0xE5, CHR 0xAE, CHR 0x8C, CHR 0xE4, CHR 0xBA, CHR 0x86]"

subsection \<open>Partial updates written in the source\<close>

text \<open>The argument of the \<open>updateState\<close> call of \<open>startTask\<close>: it names all eight keys.\<close>

definition reset_update :: "string \<Rightarrow> AgentState_partial" where
  "reset_update task =
     \<lparr>set_status = Some Planning, set_currentTask = Some (Some task), set_plan = Some [],
      set_progress = Some 0, set_currentStep = Some None, set_results = Some [],
      set_error = Some None, set_history = Some []\<rparr>"

text \<open>
  The argument \<open>{ status: 'error', error: ... }\<close> of every \<open>catch\<close> block. The thrown value
  is represented by the string that \<open>error instanceof Error ? error.message : String(error)\<close>
  makes of it.
\<close>

definition caught_update :: "string \<Rightarrow> AgentState_partial" where
  "caught_update msg = no_keys\<lparr>set_status := Some Error, set_error := Some (Some msg)\<rparr>"

text \<open>
  \<open>Math.floor((i / this.state.plan.length) * k)\<close>, computed on exact rationals. The
  source computes on IEEE doubles; for the plan length 4, the only one \<open>planTask\<close>
  produces, \<open>i / 4\<close> and its products with 50, 70 and 90 are exactly representable, so
  both agree. The call sites have \<open>i < n\<close>, hence \<open>n \<noteq> 0\<close>.
\<close>

definition floor_ratio :: "nat \<Rightarrow> nat \<Rightarrow> nat \<Rightarrow> int" where
  "floor_ratio i n k = \<lfloor>(rat_of_nat i / rat_of_nat n) * rat_of_nat k\<rfloor>"

definition executing_update :: "string \<Rightarrow> nat \<Rightarrow> nat \<Rightarrow> AgentState_partial" where
  "executing_update step i n =
     no_keys\<lparr>set_status := Some Executing, set_currentStep := Some (Some step),
       set_progress := Some (floor_ratio i n 50)\<rparr>"

definition observing_update :: "nat \<Rightarrow> nat \<Rightarrow> AgentState_partial" where
  "observing_update i n =
     no_keys\<lparr>set_status := Some Observing, set_progress := Some (floor_ratio i n 70)\<rparr>"

definition updating_update :: "nat \<Rightarrow> nat \<Rightarrow> AgentState_partial" where
  "updating_update i n =
     no_keys\<lparr>set_status := Some Updating, set_progress := Some (floor_ratio i n 90)\<rparr>"

definition completed_update :: AgentState_partial where
  "completed_update =
     no_keys\<lparr>set_status := Some Completed, set_progress := Some 100, set_currentStep := Some None\<rparr>"

text \<open>The four updates made inside the phase functions, after their simulated work.\<close>

definition planned_update :: "string list \<Rightarrow> nat \<Rightarrow> AgentState \<Rightarrow> AgentState_partial" where
  "planned_update p now s =
     no_keys\<lparr>set_plan := Some p, set_progress := Some 10,
       set_history := Some (history s @
         [\<lparr>action = ''planning'', result = PlanValue p, timestamp = now\<rparr>])\<rparr>"

definition executed_update :: "jsval \<Rightarrow> nat \<Rightarrow> AgentState \<Rightarrow> AgentState_partial" where
  "executed_update r now s =
     no_keys\<lparr>set_results := Some (results s @ [r]),
       set_history := Some (history s @
         [\<lparr>action = ''execution'', result = r, timestamp = now\<rparr>])\<rparr>"

definition observed_update :: "jsval \<Rightarrow> nat \<Rightarrow> AgentState \<Rightarrow> AgentState_partial" where
  "observed_update obs now s =
     no_keys\<lparr>set_history := Some (history s @
         [\<lparr>action = ''observation'', result = obs, timestamp = now\<rparr>])\<rparr>"

definition replanned_update :: "string list \<Rightarrow> nat \<Rightarrow> AgentState \<Rightarrow> AgentState_partial" where
  "replanned_update updatedPlan now s =
     no_keys\<lparr>set_plan := Some updatedPlan,
       set_history := Some (history s @
         [\<lparr>action = ''plan-update'', result = UpdatedPlan updatedPlan, timestamp = now\<rparr>])\<rparr>"

subsection \<open>Control flow of \<open>startTask\<close>\<close>

text \<open>The array literal built at the start of \<open>planTask\<close>.\<close>

definition planTask_plan :: "string \<Rightarrow> string list" where
  "planTask_plan task =
     [lit_task @ task @ lit_gather, lit_task @ task @ lit_analyse,
      lit_task @ task @ lit_execute, lit_task @ task @ lit_summary]"

text \<open>
  \<open>startTask\<close> up to its first suspension: the guard, the reset, then \<open>runAgentLoop\<close> and
  \<open>planTask\<close> as far as the \<open>await\<close> on the planning timer.
\<close>

definition startTask :: "string \<Rightarrow> AgentLoop \<Rightarrow> AgentLoop" where
  "startTask task a =
     (if taskRunning a then a
      else let a1 = updateState (reset_update task) (a\<lparr>taskRunning := True\<rparr>)
           in a1\<lparr>suspended := Some (AwaitPlan (planTask_plan task))\<rparr>)"

text \<open>The \<open>finally\<close> block of \<open>startTask\<close>; the call is over and nothing stays suspended.\<close>

definition startTask_finally :: "AgentLoop \<Rightarrow> AgentLoop" where
  "startTask_finally a = a\<lparr>taskRunning := False, suspended := None\<rparr>"

text \<open>The \<open>catch\<close> block of \<open>startTask\<close>, followed by its \<open>finally\<close> block.\<close>

definition startTask_catch :: "string \<Rightarrow> AgentLoop \<Rightarrow> AgentLoop" where
  "startTask_catch msg a = startTask_finally (updateState (caught_update msg) a)"

text \<open>The end of \<open>runAgentLoop\<close> after the loop, and the normal return into \<open>startTask\<close>.\<close>

definition runAgentLoop_complete :: "AgentLoop \<Rightarrow> AgentLoop" where
  "runAgentLoop_complete a = startTask_finally (updateState completed_update a)"

text \<open>
  The head of the \<open>for\<close> loop with counter value \<open>i\<close>: the test
  \<open>i < this.state.plan.length\<close>, then the execute-phase update and \<open>executeStep\<close> as far
  as its \<open>await\<close>. \<open>plan ! i\<close> is read under \<open>i < length plan\<close> only.
\<close>

definition runAgentLoop_iterate :: "nat \<Rightarrow> AgentLoop \<Rightarrow> AgentLoop" where
  "runAgentLoop_iterate i a =
     (if i < length (plan (state a))
      then let step = plan (state a) ! i;
               a1 = updateState (executing_update step i (length (plan (state a)))) a
           in a1\<lparr>suspended := Some (AwaitExec i step)\<rparr>
      else runAgentLoop_complete a)"

text \<open>
  The rest of each phase function after its \<open>await\<close>. The awaited work is simulated by a
  timer in the source and stands for the real planning, execution, observation and plan
  revision. Its outcome is the parameter \<open>thrown\<close>: \<open>None\<close> when the work completes (the
  only outcome of the timer), \<open>Some msg\<close> when it throws, which takes the \<open>catch\<close> block
  of the phase function. \<open>now\<close> is the value of \<open>Date.now()\<close>. The functions that rethrow
  return \<open>Inl msg\<close> for the exception and \<open>Inr v\<close> for the returned value.
\<close>

definition planTask_resume :: "string list \<Rightarrow> string option \<Rightarrow> nat \<Rightarrow> AgentLoop \<Rightarrow> AgentLoop" where
  "planTask_resume p thrown now a =
     (case thrown of
        None \<Rightarrow> updateState (planned_update p now (state a)) a
      | Some msg \<Rightarrow> updateState (caught_update msg) a)"

definition executeStep_resume ::
  "string \<Rightarrow> string option \<Rightarrow> nat \<Rightarrow> AgentLoop \<Rightarrow> (string + jsval) \<times> AgentLoop" where
  "executeStep_resume step thrown now a =
     (case thrown of
        None \<Rightarrow> (let r = StepResult step (step @ lit_output)
                 in (Inr r, updateState (executed_update r now (state a)) a))
      | Some msg \<Rightarrow> (Inl msg, updateState (caught_update msg) a))"

definition observeResult_resume ::
  "jsval \<Rightarrow> string option \<Rightarrow> nat \<Rightarrow> AgentLoop \<Rightarrow> (string + jsval) \<times> AgentLoop" where
  "observeResult_resume r thrown now a =
     (case thrown of
        None \<Rightarrow> (let observation = Observation r lit_feedback
                 in (Inr observation, updateState (observed_update observation now (state a)) a))
      | Some msg \<Rightarrow> (Inl msg, updateState (caught_update msg) a))"

definition updatePlan_resume ::
  "jsval \<Rightarrow> string option \<Rightarrow> nat \<Rightarrow> AgentLoop \<Rightarrow> (string + bool) \<times> AgentLoop" where
  "updatePlan_resume observation thrown now a =
     (case thrown of
        None \<Rightarrow> (let updatedPlan = plan (state a)
                 in (Inr True, updateState (replanned_update updatedPlan now (state a)) a))
      | Some msg \<Rightarrow> (Inl msg, updateState (caught_update msg) a))"

text \<open>
  The timer of the pending \<open>await\<close> fires: the suspended call runs on to its next
  \<open>await\<close> or to its end. With no call suspended there is no timer, and nothing happens.
\<close>

definition resume :: "string option \<Rightarrow> nat \<Rightarrow> AgentLoop \<Rightarrow> AgentLoop" where
  "resume thrown now a =
     (case suspended a of
        None \<Rightarrow> a
      | Some (AwaitPlan p) \<Rightarrow>
          (let a1 = planTask_resume p thrown now a
           in if status (state a1) = Error then startTask_finally a1
              else runAgentLoop_iterate 0 a1)
      | Some (AwaitExec i step) \<Rightarrow>
          (case executeStep_resume step thrown now a of
             (Inl msg, a1) \<Rightarrow> startTask_catch msg a1
           | (Inr r, a1) \<Rightarrow>
               if status (state a1) = Error then startTask_finally a1
               else let a2 = updateState (observing_update i (length (plan (state a1)))) a1
                    in a2\<lparr>suspended := Some (AwaitObserve i r)\<rparr>)
      | Some (AwaitObserve i r) \<Rightarrow>
          (case observeResult_resume r thrown now a of
             (Inl msg, a1) \<Rightarrow> startTask_catch msg a1
           | (Inr observation, a1) \<Rightarrow>
               let a2 = updateState (updating_update i (length (plan (state a1)))) a1
               in a2\<lparr>suspended := Some (AwaitUpdate i observation)\<rparr>)
      | Some (AwaitUpdate i observation) \<Rightarrow>
          (case updatePlan_resume observation thrown now a of
             (Inl msg, a1) \<Rightarrow> startTask_catch msg a1
           | (Inr shouldContinue, a1) \<Rightarrow>
               if \<not> shouldContinue then runAgentLoop_complete a1
               else runAgentLoop_iterate (i + 1) a1))"

subsection \<open>Histories of calls\<close>

text \<open>
  What can happen to an \<open>AgentLoop\<close> from outside: a call of \<open>startTask\<close>, the pending
  timer firing, a registration, and a call of the closure a registration returned.
\<close>

datatype event =
    StartTask string
  | Resume "string option" nat
  | OnStateUpdate nat
  | Unsubscribe nat

fun apply_event :: "event \<Rightarrow> AgentLoop \<Rightarrow> AgentLoop" where
  "apply_event (StartTask task) a = startTask task a"
| "apply_event (Resume thrown now) a = resume thrown now a"
| "apply_event (OnStateUpdate cb) a = onStateUpdate cb a"
| "apply_event (Unsubscribe cb) a = unsubscribe cb a"

definition run :: "event list \<Rightarrow> AgentLoop \<Rightarrow> AgentLoop" where
  "run evs a = fold apply_event evs a"

text \<open>The progress values handed to one subscriber, in order of delivery.\<close>

definition progress_seen :: "nat \<Rightarrow> AgentLoop \<Rightarrow> int list" where
  "progress_seen cb a = map (\<lambda>p. progress (snd p)) (filter (\<lambda>p. fst p = cb) (delivered a))"

text \<open>
  Three facts about the progress that hold in every state that calls and timer events
  can reach; they are the invariants behind the statements on progress below.
  \<^item> \<open>trace_in_range\<close>: the progress of the state and of every snapshot delivered lies
    between 0 and 100;
  \<^item> \<open>phase_progress\<close>: a call suspended in the execute or observe phase of step \<open>i\<close>
    has \<open>i\<close> inside the plan, and the progress is the one that phase set;
  \<^item> \<open>completed_full\<close>: a completed state has progress 100.
\<close>

definition in_range :: "AgentState \<Rightarrow> bool" where
  "in_range s = (0 \<le> progress s \<and> progress s \<le> 100)"

definition trace_in_range :: "AgentLoop \<Rightarrow> bool" where
  "trace_in_range a = (in_range (state a) \<and> list_all (\<lambda>p. in_range (snd p)) (delivered a))"

definition phase_progress :: "AgentLoop \<Rightarrow> bool" where
  "phase_progress a =
     (case suspended a of
        Some (AwaitExec i step) \<Rightarrow>
          i < length (plan (state a)) \<and>
          progress (state a) = floor_ratio i (length (plan (state a))) 50
      | Some (AwaitObserve i r) \<Rightarrow>
          i < length (plan (state a)) \<and>
          progress (state a) = floor_ratio i (length (plan (state a))) 70
      | _ \<Rightarrow> True)"

definition completed_full :: "AgentLoop \<Rightarrow> bool" where
  "completed_full a = (if status (state a) = Completed then progress (state a) = 100 else True)"

section \<open>WebSocketManager (the client utility of src/app/api/ws/route.ts)\<close>

subsection \<open>Data model\<close>

record WebSocketState =
  isConnected :: bool
  ws_error :: "string option"

text \<open>\<open>Partial<WebSocketState>\<close>, with \<open>None\<close> for an absent key.\<close>

record WebSocketState_partial =
  set_isConnected :: "bool option"
  set_ws_error :: "string option option"

definition ws_spread :: "WebSocketState \<Rightarrow> WebSocketState_partial \<Rightarrow> WebSocketState" where
  "ws_spread s u =
     \<lparr>isConnected = (case set_isConnected u of None \<Rightarrow> isConnected s | Some v \<Rightarrow> v),
      ws_error = (case set_ws_error u of None \<Rightarrow> ws_error s | Some v \<Rightarrow> v)\<rparr>"

record WebSocketPayload =
  payload_type :: string
  payload_data :: string

text \<open>The \<open>readyState\<close> of a browser \<open>WebSocket\<close>.\<close>

datatype readyState = CONNECTING | OPEN | CLOSING | CLOSED

text \<open>
  The object and what surrounds it. \<open>socket\<close>, the two listener arrays,
  \<open>reconnectAttempts\<close>, \<open>sessionId\<close> and \<open>ws_state\<close> (the field \<open>state\<close>) are the fields
  of the class; \<open>socket\<close> holds a handle into \<open>sockets\<close>, and listeners are numbers that
  stand for function references. The rest is the browser's side:
  \<^item> \<open>sockets\<close>: the \<open>readyState\<close> of every \<open>WebSocket\<close> the manager has created, the
    handle being the index;
  \<^item> \<open>timers\<close>: the delays of the pending \<open>setTimeout(() => this.connect(), delay)\<close>
    calls, in the order they were scheduled. The source keeps no handle of them;
  \<^item> \<open>state_notified\<close> and \<open>message_notified\<close>: the listener invocations made so far.
\<close>

record WebSocketManager =
  socket :: "nat option"
  messageListeners :: "nat list"
  stateChangeListeners :: "nat list"
  reconnectAttempts :: nat
  sessionId :: string
  ws_state :: WebSocketState
  sockets :: "readyState list"
  timers :: "rat list"
  state_notified :: "(nat \<times> WebSocketState) list"
  message_notified :: "(nat \<times> WebSocketPayload) list"

text \<open>
  The private fields \<open>maxReconnectAttempts = 5\<close> and \<open>reconnectDelay = 1000\<close> are
  initialised at their declaration and assigned nowhere else.
\<close>

definition maxReconnectAttempts :: nat where
  "maxReconnectAttempts = 5"

definition reconnectDelay :: rat where
  "reconnectDelay = 1000"

definition new_WebSocketManager :: "string \<Rightarrow> WebSocketManager" where
  "new_WebSocketManager sid =
     \<lparr>socket = None, messageListeners = [], stateChangeListeners = [], reconnectAttempts = 0,
      sessionId = sid, ws_state = \<lparr>isConnected = False, ws_error = None\<rparr>,
      sockets = [], timers = [], state_notified = [], message_notified = []\<rparr>"

subsection \<open>Operations\<close>

definition ws_updateState :: "WebSocketState_partial \<Rightarrow> WebSocketManager \<Rightarrow> WebSocketManager" where
  "ws_updateState newState m =
     (let s = ws_spread (ws_state m) newState
      in m\<lparr>ws_state := s,
           state_notified := state_notified m @ map (\<lambda>l. (l, s)) (stateChangeListeners m)\<rparr>)"

text \<open>
  The test at the head of \<open>connect\<close>: a socket is held and it is open or opening. A
  handle held in \<open>socket\<close> always lies inside \<open>sockets\<close>.
\<close>

definition socket_live :: "WebSocketManager \<Rightarrow> bool" where
  "socket_live m =
     (case socket m of
        None \<Rightarrow> False
      | Some h \<Rightarrow> h < length (sockets m) \<and> (sockets m ! h = OPEN \<or> sockets m ! h = CONNECTING))"

text \<open>
  \<open>connect\<close>. \<open>thrown\<close> is the outcome of the \<open>try\<close> block: \<open>None\<close> when the
  \<open>WebSocket\<close> constructor returns, \<open>Some msg\<close> when it throws.
\<close>

definition connect :: "string option \<Rightarrow> WebSocketManager \<Rightarrow> WebSocketManager" where
  "connect thrown m =
     (if socket_live m then m
      else case thrown of
             None \<Rightarrow> m\<lparr>socket := Some (length (sockets m)), sockets := sockets m @ [CONNECTING]\<rparr>
           | Some msg \<Rightarrow>
               ws_updateState \<lparr>set_isConnected = Some False, set_ws_error = Some (Some msg)\<rparr> m)"

text \<open>\<open>WebSocket.close()\<close>: an open or opening socket starts closing; otherwise nothing.\<close>

definition socket_close :: "nat \<Rightarrow> readyState list \<Rightarrow> readyState list" where
  "socket_close h ss =
     (if h < length ss \<and> (ss ! h = OPEN \<or> ss ! h = CONNECTING) then ss[h := CLOSING] else ss)"

definition disconnect :: "WebSocketManager \<Rightarrow> WebSocketManager" where
  "disconnect m =
     (case socket m of
        None \<Rightarrow> m
      | Some h \<Rightarrow>
          ws_updateState \<lparr>set_isConnected = Some False, set_ws_error = Some None\<rparr>
            (m\<lparr>sockets := socket_close h (sockets m), socket := None, reconnectAttempts := 0\<rparr>))"

definition addMessageListener :: "nat \<Rightarrow> WebSocketManager \<Rightarrow> WebSocketManager" where
  "addMessageListener listener m = m\<lparr>messageListeners := messageListeners m @ [listener]\<rparr>"

text \<open>The closure returned by \<open>addMessageListener(listener)\<close>, when it is invoked.\<close>

definition removeMessageListener :: "nat \<Rightarrow> WebSocketManager \<Rightarrow> WebSocketManager" where
  "removeMessageListener listener m =
     m\<lparr>messageListeners := filter (\<lambda>l. l \<noteq> listener) (messageListeners m)\<rparr>"

definition addStateChangeListener :: "nat \<Rightarrow> WebSocketManager \<Rightarrow> WebSocketManager" where
  "addStateChangeListener listener m =
     m\<lparr>stateChangeListeners := stateChangeListeners m @ [listener],
       state_notified := state_notified m @ [(listener, ws_state m)]\<rparr>"

definition removeStateChangeListener :: "nat \<Rightarrow> WebSocketManager \<Rightarrow> WebSocketManager" where
  "removeStateChangeListener listener m =
     m\<lparr>stateChangeListeners := filter (\<lambda>l. l \<noteq> listener) (stateChangeListeners m)\<rparr>"

subsection \<open>Event handlers\<close>

definition handleOpen :: "WebSocketManager \<Rightarrow> WebSocketManager" where
  "handleOpen m =
     ws_updateState \<lparr>set_isConnected = Some True, set_ws_error = Some None\<rparr>
       (m\<lparr>reconnectAttempts := 0\<rparr>)"

text \<open>
  \<open>handleMessage\<close>. The argument is the outcome of \<open>JSON.parse(event.data)\<close>: \<open>None\<close>
  when it throws, which the \<open>catch\<close> block only logs.
\<close>

definition handleMessage :: "WebSocketPayload option \<Rightarrow> WebSocketManager \<Rightarrow> WebSocketManager" where
  "handleMessage parsed m =
     (case parsed of
        None \<Rightarrow> m
      | Some payload \<Rightarrow>
          m\<lparr>message_notified :=
              message_notified m @ map (\<lambda>l. (l, payload)) (messageListeners m)\<rparr>)"

text \<open>
  \<open>handleClose\<close>, with \<open>event.code\<close> and \<open>event.reason\<close>. The empty string is falsy, so
  \<open>event.reason || 'Unknown reason'\<close> replaces it. The delay
  \<open>this.reconnectDelay * Math.pow(1.5, this.reconnectAttempts - 1)\<close> is computed on exact
  rationals: for the exponents 0 to 4 that the cap allows, the powers of 1.5 and their
  products with 1000 are exactly representable doubles.
\<close>

definition handleClose :: "nat \<Rightarrow> string \<Rightarrow> WebSocketManager \<Rightarrow> WebSocketManager" where
  "handleClose code reason m =
     (let m1 = ws_updateState
                 \<lparr>set_isConnected = Some False,
                  set_ws_error = Some (if code \<noteq> 1000
                     then Some (''Connection closed: '' @
                                 (if reason = [] then ''Unknown reason'' else reason))
                     else None)\<rparr> m
      in if code \<noteq> 1000 \<and> reconnectAttempts m1 < maxReconnectAttempts
         then let n = reconnectAttempts m1 + 1;
                  delay = reconnectDelay * (3 / 2) ^ (n - 1)
              in m1\<lparr>reconnectAttempts := n, timers := timers m1 @ [delay]\<rparr>
         else m1)"

definition handleError :: "WebSocketManager \<Rightarrow> WebSocketManager" where
  "handleError m =
     ws_updateState \<lparr>set_isConnected = Some False, set_ws_error = Some (Some ''Connection error'')\<rparr> m"

subsection \<open>The browser's side\<close>

text \<open>
  Every socket is created by \<open>connect\<close>, which binds the four handlers to the manager.
  They stay bound when the manager drops or replaces the socket, so an event of any
  socket ever created reaches the manager. The browser sets \<open>readyState\<close> before it
  dispatches \<open>open\<close> and \<open>close\<close>.
\<close>

definition socket_opened :: "nat \<Rightarrow> WebSocketManager \<Rightarrow> WebSocketManager" where
  "socket_opened h m =
     (if h < length (sockets m) then handleOpen (m\<lparr>sockets := (sockets m)[h := OPEN]\<rparr>) else m)"

definition socket_closed :: "nat \<Rightarrow> nat \<Rightarrow> string \<Rightarrow> WebSocketManager \<Rightarrow> WebSocketManager" where
  "socket_closed h code reason m =
     (if h < length (sockets m)
      then handleClose code reason (m\<lparr>sockets := (sockets m)[h := CLOSED]\<rparr>)
      else m)"

text \<open>
  The pending timer number \<open>k\<close> expires: it leaves the pending ones and its callback
  \<open>() => this.connect()\<close> runs.
\<close>

definition timer_fires :: "nat \<Rightarrow> string option \<Rightarrow> WebSocketManager \<Rightarrow> WebSocketManager" where
  "timer_fires k thrown m =
     (if k < length (timers m)
      then connect thrown (m\<lparr>timers := take k (timers m) @ drop (Suc k) (timers m)\<rparr>)
      else m)"

subsection \<open>The module-level singleton\<close>

text \<open>
  \<open>getWebSocketManager\<close> reads and writes the module variable \<open>wsManager\<close>, passed in
  and returned here: the result is the manager handed to the caller and the new value
  of the variable.
\<close>

definition getWebSocketManager ::
  "string \<Rightarrow> WebSocketManager option \<Rightarrow> WebSocketManager \<times> WebSocketManager option" where
  "getWebSocketManager sid wsManager =
     (case wsManager of
        None \<Rightarrow> (let m = new_WebSocketManager sid in (m, Some m))
      | Some m \<Rightarrow> (m, Some m))"

section \<open>Properties of AgentLoop\<close>

subsection \<open>The single-flight guard\<close>

text \<open>
  C6. While a task is running (the guard \<open>taskRunning\<close> is set), \<open>startTask\<close> with a new
  task returns and leaves the whole object as it was: no field of \<open>AgentState\<close> changes,
  the state is not reset, the history gets no entry, no snapshot is delivered, and the
  call has no error outcome.
\<close>

theorem startTask_ignored_while_running:
  "taskRunning a \<Longrightarrow> startTask task a = a"
  by (simp add: startTask_def)

theorem startTask_ignored_while_running_witness:
  "taskRunning (startTask ''a'' new_AgentLoop) \<and>
   startTask ''b'' (startTask ''a'' new_AgentLoop) = startTask ''a'' new_AgentLoop"
proof -
  have r: "taskRunning (startTask ''a'' new_AgentLoop)"
    by (simp add: startTask_def new_AgentLoop_def updateState_def)
  from startTask_ignored_while_running [OF r] show ?thesis using r by simp
qed

subsection \<open>Basic facts about the update primitive\<close>

lemmas update_defs =
  no_keys_def reset_update_def caught_update_def executing_update_def observing_update_def
  updating_update_def completed_update_def planned_update_def executed_update_def
  observed_update_def replanned_update_def

lemmas flow_defs =
  startTask_finally_def startTask_catch_def runAgentLoop_complete_def
  runAgentLoop_iterate_def planTask_resume_def executeStep_resume_def
  observeResult_resume_def updatePlan_resume_def

lemma state_updateState [simp]: "state (updateState u a) = spread (state a) u"
  by (simp add: updateState_def Let_def)

lemma taskRunning_updateState [simp]: "taskRunning (updateState u a) = taskRunning a"
  by (simp add: updateState_def Let_def)

lemma updateCallbacks_updateState [simp]:
  "updateCallbacks (updateState u a) = updateCallbacks a"
  by (simp add: updateState_def Let_def)

lemma suspended_updateState [simp]: "suspended (updateState u a) = suspended a"
  by (simp add: updateState_def Let_def)

lemma delivered_updateState [simp]:
  "delivered (updateState u a) =
     delivered a @ map (\<lambda>cb. (cb, spread (state a) u)) (updateCallbacks a)"
  by (simp add: updateState_def Let_def)

lemma spread_fields [simp]:
  "status (spread s u) = (case set_status u of None \<Rightarrow> status s | Some v \<Rightarrow> v)"
  "currentTask (spread s u) = (case set_currentTask u of None \<Rightarrow> currentTask s | Some v \<Rightarrow> v)"
  "plan (spread s u) = (case set_plan u of None \<Rightarrow> plan s | Some v \<Rightarrow> v)"
  "progress (spread s u) = (case set_progress u of None \<Rightarrow> progress s | Some v \<Rightarrow> v)"
  "currentStep (spread s u) = (case set_currentStep u of None \<Rightarrow> currentStep s | Some v \<Rightarrow> v)"
  "results (spread s u) = (case set_results u of None \<Rightarrow> results s | Some v \<Rightarrow> v)"
  "error (spread s u) = (case set_error u of None \<Rightarrow> error s | Some v \<Rightarrow> v)"
  "history (spread s u) = (case set_history u of None \<Rightarrow> history s | Some v \<Rightarrow> v)"
  by (simp_all add: spread_def)

lemma currentTask_resume: "currentTask (state (resume thrown now a)) = currentTask (state a)"
  by (simp add: resume_def flow_defs update_defs Let_def
      split: option.splits continuation.splits)

subsection \<open>Frame of a partial update\<close>

text \<open>
  C10. The state changes through \<open>updateState\<close> only, which merges a partial record over
  the previous state: every field whose key is absent from the partial record keeps its
  previous value. In particular the timer events of a run never change \<open>currentTask\<close>,
  and the two updates of the observe phase (the one that enters it and the one that
  \<open>observeResult\<close> makes) leave \<open>plan\<close> and \<open>results\<close> as they were.
\<close>

theorem updateState_frame:
  "(set_status u = None \<longrightarrow> status (state (updateState u a)) = status (state a)) \<and>
   (set_currentTask u = None \<longrightarrow> currentTask (state (updateState u a)) = currentTask (state a)) \<and>
   (set_plan u = None \<longrightarrow> plan (state (updateState u a)) = plan (state a)) \<and>
   (set_progress u = None \<longrightarrow> progress (state (updateState u a)) = progress (state a)) \<and>
   (set_currentStep u = None \<longrightarrow> currentStep (state (updateState u a)) = currentStep (state a)) \<and>
   (set_results u = None \<longrightarrow> results (state (updateState u a)) = results (state a)) \<and>
   (set_error u = None \<longrightarrow> error (state (updateState u a)) = error (state a)) \<and>
   (set_history u = None \<longrightarrow> history (state (updateState u a)) = history (state a)) \<and>
   currentTask (state (resume thrown now a)) = currentTask (state a) \<and>
   plan (state (updateState (observing_update i n) a)) = plan (state a) \<and>
   results (state (updateState (observing_update i n) a)) = results (state a) \<and>
   plan (state (updateState (observed_update obs now (state a)) a)) = plan (state a) \<and>
   results (state (updateState (observed_update obs now (state a)) a)) = results (state a)"
  by (simp add: currentTask_resume observing_update_def observed_update_def no_keys_def)

theorem updateState_frame_witness:
  "set_status no_keys = None \<and> set_currentTask no_keys = None \<and> set_plan no_keys = None \<and>
   set_progress no_keys = None \<and> set_currentStep no_keys = None \<and> set_results no_keys = None \<and>
   set_error no_keys = None \<and> set_history no_keys = None \<and>
   state (updateState no_keys (startTask ''a'' new_AgentLoop)) =
     state (startTask ''a'' new_AgentLoop) \<and>
   currentTask (state (resume None 7 (startTask ''a'' new_AgentLoop))) = Some ''a''"
proof -
  have keys: "set_status no_keys = None" "set_currentTask no_keys = None"
    "set_plan no_keys = None" "set_progress no_keys = None" "set_currentStep no_keys = None"
    "set_results no_keys = None" "set_error no_keys = None" "set_history no_keys = None"
    by (simp_all add: no_keys_def)
  have task: "currentTask (state (startTask ''a'' new_AgentLoop)) = Some ''a''"
    by (simp add: startTask_def new_AgentLoop_def reset_update_def)
  from updateState_frame [of no_keys "startTask ''a'' new_AgentLoop" None 7]
  show ?thesis using keys task by (simp add: AgentState.equality)
qed

subsection \<open>Failure of a phase\<close>

text \<open>
  C5. A task is running and waits in one of its phases (planning, execution,
  observation or plan update). If the work of that phase fails with message \<open>msg\<close>,
  then the next snapshot handed to every subscriber has \<open>status = Error\<close> and
  \<open>error = msg\<close> (it is the state in which the call ends), the guard is released when
  \<open>startTask\<close> is over, and a following \<open>startTask\<close> is accepted: it resets the state
  and starts a new run.
\<close>

theorem phase_failure_reports_error_and_releases_guard:
  assumes "suspended a = Some k"
  shows "status (state (resume (Some msg) now a)) = Error \<and>
         error (state (resume (Some msg) now a)) = Some msg \<and>
         (\<exists>rest. delivered (resume (Some msg) now a) =
            delivered a @
            map (\<lambda>cb. (cb, state (resume (Some msg) now a))) (updateCallbacks a) @ rest) \<and>
         \<not> taskRunning (resume (Some msg) now a) \<and>
         suspended (resume (Some msg) now a) = None \<and>
         state (startTask task (resume (Some msg) now a)) =
           \<lparr>status = Planning, currentTask = Some task, plan = [], progress = 0,
            currentStep = None, results = [], error = None, history = []\<rparr> \<and>
         taskRunning (startTask task (resume (Some msg) now a)) \<and>
         suspended (startTask task (resume (Some msg) now a)) = Some (AwaitPlan (planTask_plan task))"
proof (cases k)
  case (AwaitPlan p)
  with assms show ?thesis
    by (simp add: resume_def flow_defs update_defs startTask_def spread_def)
next
  case (AwaitExec i step)
  with assms show ?thesis
    by (simp add: resume_def flow_defs update_defs startTask_def spread_def)
next
  case (AwaitObserve i r)
  with assms show ?thesis
    by (simp add: resume_def flow_defs update_defs startTask_def spread_def)
next
  case (AwaitUpdate i obs)
  with assms show ?thesis
    by (simp add: resume_def flow_defs update_defs startTask_def spread_def)
qed

theorem phase_failure_reports_error_and_releases_guard_witness:
  "suspended (resume None 1 (startTask ''a'' (onStateUpdate 0 new_AgentLoop))) =
     Some (AwaitExec 0 (lit_task @ ''a'' @ lit_gather)) \<and>
   status (state (resume (Some ''boom'') 2
     (resume None 1 (startTask ''a'' (onStateUpdate 0 new_AgentLoop))))) = Error \<and>
   error (state (resume (Some ''boom'') 2
     (resume None 1 (startTask ''a'' (onStateUpdate 0 new_AgentLoop))))) = Some ''boom'' \<and>
   \<not> taskRunning (resume (Some ''boom'') 2
     (resume None 1 (startTask ''a'' (onStateUpdate 0 new_AgentLoop)))) \<and>
   taskRunning (startTask ''b'' (resume (Some ''boom'') 2
     (resume None 1 (startTask ''a'' (onStateUpdate 0 new_AgentLoop)))))"
proof -
  have s: "suspended (resume None 1 (startTask ''a'' (onStateUpdate 0 new_AgentLoop))) =
     Some (AwaitExec 0 (lit_task @ ''a'' @ lit_gather))"
    by (simp add: resume_def flow_defs update_defs startTask_def onStateUpdate_def
        new_AgentLoop_def planTask_plan_def Let_def)
  from phase_failure_reports_error_and_releases_guard [OF s, of "''boom''" 2 "''b''"]
  show ?thesis using s by simp
qed

subsection \<open>The run of a four-step plan\<close>

lemma floor_ratio_div: "floor_ratio i n k = int ((i * k) div n)"
proof -
  have "(rat_of_nat i / rat_of_nat n) * rat_of_nat k = rat_of_nat (i * k) / rat_of_nat n"
    by simp
  then show ?thesis
    unfolding floor_ratio_def by (simp only: floor_divide_of_nat_eq)
qed

lemma floor_ratio_quarters:
  "map (\<lambda>i. floor_ratio i 4 50) [0, 1, 2, 3] = [0, 12, 25, 37]"
  "map (\<lambda>i. floor_ratio i 4 70) [0, 1, 2, 3] = [0, 17, 35, 52]"
  "map (\<lambda>i. floor_ratio i 4 90) [0, 1, 2, 3] = [0, 22, 45, 67]"
  by (simp_all add: floor_ratio_div)

lemma four_step_trace:
  "map (\<lambda>p. (fst p, status (snd p), progress (snd p)))
     (delivered (run [OnStateUpdate cb, StartTask task,
        Resume None t0,
        Resume None t1, Resume None t2, Resume None t3,
        Resume None t4, Resume None t5, Resume None t6,
        Resume None t7, Resume None t8, Resume None t9,
        Resume None t10, Resume None t11, Resume None t12] new_AgentLoop)) =
     [(cb, Planning, 0), (cb, Planning, 10),
      (cb, Executing, 0), (cb, Executing, 0),
      (cb, Observing, 0), (cb, Observing, 0),
      (cb, Updating, 0), (cb, Updating, 0),
      (cb, Executing, 12), (cb, Executing, 12),
      (cb, Observing, 17), (cb, Observing, 17),
      (cb, Updating, 22), (cb, Updating, 22),
      (cb, Executing, 25), (cb, Executing, 25),
      (cb, Observing, 35), (cb, Observing, 35),
      (cb, Updating, 45), (cb, Updating, 45),
      (cb, Executing, 37), (cb, Executing, 37),
      (cb, Observing, 52), (cb, Observing, 52),
      (cb, Updating, 67), (cb, Updating, 67),
      (cb, Completed, 100)]"
  by (simp add: run_def resume_def flow_defs update_defs startTask_def onStateUpdate_def
      new_AgentLoop_def planTask_plan_def Let_def floor_ratio_div)

lemma phases_via_trace:
  "map (\<lambda>p. (status (snd p), progress (snd p))) xs =
   map snd (map (\<lambda>p. (fst p, status (snd p), progress (snd p))) xs)"
  by (simp add: comp_def)

lemma progress_seen_via_trace:
  "progress_seen cb a =
   map (\<lambda>t. snd (snd t))
     (filter (\<lambda>t. fst t = cb) (map (\<lambda>p. (fst p, status (snd p), progress (snd p))) (delivered a)))"
  by (simp add: progress_seen_def filter_map comp_def)

text \<open>
  C9. A task is started on a fresh object with one subscriber; its plan has four steps,
  no phase fails and the update phase always continues. \<open>phases_seen\<close> lists the status
  and progress of every snapshot the subscriber receives. At the execute, observe and
  update boundaries of step \<open>i\<close> the progress is \<open>floor (i / 4 * 50)\<close>,
  \<open>floor (i / 4 * 70)\<close> and \<open>floor (i / 4 * 90)\<close>, that is 0, 12, 25, 37 and 0, 17, 35, 52
  and 0, 22, 45, 67 (each value is delivered a second time, by the update the phase
  makes after its work), and the last snapshot has \<open>status = Completed\<close> and progress 100.
\<close>

theorem four_step_run_progress:
  "length (planTask_plan task) = 4 \<and>
   map (\<lambda>p. (status (snd p), progress (snd p)))
     (delivered (run [OnStateUpdate cb, StartTask task,
        Resume None t0,
        Resume None t1, Resume None t2, Resume None t3,
        Resume None t4, Resume None t5, Resume None t6,
        Resume None t7, Resume None t8, Resume None t9,
        Resume None t10, Resume None t11, Resume None t12] new_AgentLoop)) =
     [(Planning, 0), (Planning, 10),
      (Executing, floor_ratio 0 4 50), (Executing, 0),
      (Observing, floor_ratio 0 4 70), (Observing, 0),
      (Updating, floor_ratio 0 4 90), (Updating, 0),
      (Executing, floor_ratio 1 4 50), (Executing, 12),
      (Observing, floor_ratio 1 4 70), (Observing, 17),
      (Updating, floor_ratio 1 4 90), (Updating, 22),
      (Executing, floor_ratio 2 4 50), (Executing, 25),
      (Observing, floor_ratio 2 4 70), (Observing, 35),
      (Updating, floor_ratio 2 4 90), (Updating, 45),
      (Executing, floor_ratio 3 4 50), (Executing, 37),
      (Observing, floor_ratio 3 4 70), (Observing, 52),
      (Updating, floor_ratio 3 4 90), (Updating, 67),
      (Completed, 100)]"
  unfolding phases_via_trace four_step_trace
  by (simp add: planTask_plan_def floor_ratio_div)

subsection \<open>Length and composition of the history\<close>

lemma resume_from_exec:
  assumes "suspended a = Some (AwaitExec i step)" and "status (state a) = Executing"
  shows "suspended (resume None t a) = Some (AwaitObserve i (StepResult step (step @ lit_output)))"
    and "status (state (resume None t a)) = Observing"
    and "plan (state (resume None t a)) = plan (state a)"
    and "length (history (state (resume None t a))) = Suc (length (history (state a)))"
  using assms by (simp_all add: resume_def flow_defs update_defs Let_def)

lemma resume_from_observe:
  assumes "suspended a = Some (AwaitObserve i r)"
  shows "suspended (resume None t a) = Some (AwaitUpdate i (Observation r lit_feedback))"
    and "plan (state (resume None t a)) = plan (state a)"
    and "length (history (state (resume None t a))) = Suc (length (history (state a)))"
  using assms by (simp_all add: resume_def flow_defs update_defs Let_def)

lemma resume_from_update_more:
  assumes "suspended a = Some (AwaitUpdate i obs)" and "Suc i < length (plan (state a))"
  shows "suspended (resume None t a) = Some (AwaitExec (Suc i) (plan (state a) ! Suc i))"
    and "status (state (resume None t a)) = Executing"
    and "plan (state (resume None t a)) = plan (state a)"
    and "length (history (state (resume None t a))) = Suc (length (history (state a)))"
  using assms by (simp_all add: resume_def flow_defs update_defs Let_def)

lemma resume_from_update_last:
  assumes "suspended a = Some (AwaitUpdate i obs)" and "\<not> Suc i < length (plan (state a))"
  shows "suspended (resume None t a) = None"
    and "\<not> taskRunning (resume None t a)"
    and "status (state (resume None t a)) = Completed"
    and "plan (state (resume None t a)) = plan (state a)"
    and "length (history (state (resume None t a))) = Suc (length (history (state a)))"
  using assms by (simp_all add: resume_def flow_defs update_defs Let_def)

lemma run_Cons: "run (e # evs) a = run evs (apply_event e a)"
  by (simp add: run_def)

lemma run_Nil: "run [] a = a"
  by (simp add: run_def)

lemma run_append: "run (evs @ evs') a = run evs' (run evs a)"
  by (simp add: run_def)

text \<open>The entry each phase appends to the history, by its \<open>action\<close>.\<close>

lemma actions_from_plan:
  assumes "suspended a = Some (AwaitPlan p)" and "status (state a) = Planning"
  shows "map action (history (state (resume None t a))) =
           map action (history (state a)) @ [''planning'']"
  using assms by (simp add: resume_def flow_defs update_defs Let_def)

lemma actions_from_exec:
  assumes "suspended a = Some (AwaitExec i step)" and "status (state a) = Executing"
  shows "map action (history (state (resume None t a))) =
           map action (history (state a)) @ [''execution'']"
  using assms by (simp add: resume_def flow_defs update_defs Let_def)

lemma actions_from_observe:
  assumes "suspended a = Some (AwaitObserve i r)"
  shows "map action (history (state (resume None t a))) =
           map action (history (state a)) @ [''observation'']"
  using assms by (simp add: resume_def flow_defs update_defs Let_def)

lemma actions_from_update:
  assumes "suspended a = Some (AwaitUpdate i obs)"
  shows "map action (history (state (resume None t a))) =
           map action (history (state a)) @ [''plan-update'']"
  using assms by (simp add: resume_def flow_defs update_defs Let_def)

text \<open>The loop from iteration \<open>i\<close> on, when no phase fails: three timer events per step.\<close>

lemma steps_complete:
  assumes "suspended a = Some (AwaitExec i step)"
    and "status (state a) = Executing"
    and "i < length (plan (state a))"
    and "length ts = 3 * (length (plan (state a)) - i)"
  shows "suspended (run (map (Resume None) ts) a) = None \<and>
         \<not> taskRunning (run (map (Resume None) ts) a) \<and>
         status (state (run (map (Resume None) ts) a)) = Completed \<and>
         length (history (state (run (map (Resume None) ts) a))) =
           length (history (state a)) + 3 * (length (plan (state a)) - i) \<and>
         map action (history (state (run (map (Resume None) ts) a))) =
           map action (history (state a)) @
           concat (replicate (length (plan (state a)) - i)
             [''execution'', ''observation'', ''plan-update''])"
  using assms
proof (induction "length (plan (state a)) - i" arbitrary: a i step ts)
  case 0
  then show ?case by simp
next
  case (Suc d)
  from Suc.prems(4) Suc.hyps(2) obtain t1 t2 t3 rest
    where ts: "ts = t1 # t2 # t3 # rest" and rest: "length rest = 3 * d"
    by (cases ts; cases "tl ts"; cases "tl (tl ts)") auto
  let ?a1 = "resume None t1 a"
  let ?a2 = "resume None t2 ?a1"
  let ?a3 = "resume None t3 ?a2"
  note e = resume_from_exec [OF Suc.prems(1) Suc.prems(2), of t1]
  note ob = resume_from_observe [OF e(1), of t2]
  have plan2: "plan (state ?a2) = plan (state a)"
    using e(3) ob(2) by simp
  have hist2: "length (history (state ?a2)) = length (history (state a)) + 2"
    using e(4) ob(3) by simp
  have acts3: "map action (history (state ?a3)) =
      map action (history (state a)) @ [''execution'', ''observation'', ''plan-update'']"
    using actions_from_exec [OF Suc.prems(1) Suc.prems(2), of t1]
      actions_from_observe [OF e(1), of t2] actions_from_update [OF ob(1), of t3]
    by simp
  have unroll: "concat (replicate (length (plan (state a)) - i)
       [''execution'', ''observation'', ''plan-update'']) =
     [''execution'', ''observation'', ''plan-update''] @
     concat (replicate d [''execution'', ''observation'', ''plan-update''])"
    using Suc.hyps(2) [symmetric] by simp
  have run_ts: "run (map (Resume None) ts) a = run (map (Resume None) rest) ?a3"
    by (simp add: ts run_Cons)
  show ?case
  proof (cases "Suc i < length (plan (state a))")
    case True
    then have more: "Suc i < length (plan (state ?a2))"
      using plan2 by simp
    note u = resume_from_update_more [OF ob(1) more, of t3]
    have plan3: "plan (state ?a3) = plan (state a)"
      using u(3) plan2 by simp
    have d: "d = length (plan (state ?a3)) - Suc i"
      using Suc.hyps(2) plan3 by simp
    have len: "length rest = 3 * (length (plan (state ?a3)) - Suc i)"
      using rest d by simp
    have lt: "Suc i < length (plan (state ?a3))"
      using True plan3 by simp
    have d': "length (plan (state a)) - Suc i = d"
      using Suc.hyps(2) by simp
    have d'': "length (plan (state a)) - i = Suc d"
      using Suc.hyps(2) by simp
    from Suc.hyps(1) [OF d u(1) u(2) lt len]
    show ?thesis
      unfolding run_ts unroll plan3 acts3 d' d''
      using u(4) hist2 by simp
  next
    case False
    then have last: "\<not> Suc i < length (plan (state ?a2))"
      using plan2 by simp
    note u = resume_from_update_last [OF ob(1) last, of t3]
    from False Suc.hyps(2) have "d = 0" by simp
    with rest have nil: "rest = []" by simp
    have one: "length (plan (state a)) - i = Suc 0"
      using Suc.hyps(2) \<open>d = 0\<close> by simp
    show ?thesis
      unfolding run_ts nil one
      using u hist2 acts3 by (simp add: run_Nil)
  qed
qed

lemma resume_from_plan:
  assumes "suspended a = Some (AwaitPlan p)" and "status (state a) = Planning"
  shows "plan (state (resume None t a)) = p"
    and "length (history (state (resume None t a))) = Suc (length (history (state a)))"
    and "p \<noteq> [] \<Longrightarrow> suspended (resume None t a) = Some (AwaitExec 0 (p ! 0))"
    and "p \<noteq> [] \<Longrightarrow> status (state (resume None t a)) = Executing"
    and "p = [] \<Longrightarrow> suspended (resume None t a) = None"
    and "p = [] \<Longrightarrow> \<not> taskRunning (resume None t a)"
    and "p = [] \<Longrightarrow> status (state (resume None t a)) = Completed"
  using assms by (simp_all add: resume_def flow_defs update_defs Let_def)

lemma history_grows_in_resume:
  "sorted (length (history (state a)) #
     map (\<lambda>p. length (history (snd p)))
       (drop (length (delivered a)) (delivered (resume thrown now a))) @
     [length (history (state (resume thrown now a)))])"
  by (auto simp add: resume_def flow_defs update_defs Let_def sorted_append comp_def
      map_replicate_const split: option.splits continuation.splits)

text \<open>
  C7. A task has just been accepted: the call waits in \<open>planTask\<close> with the plan \<open>p\<close> of
  \<open>N\<close> steps, and the history is empty. If no phase fails (and the update phase
  continues, as it always does), then after the \<open>1 + 3 * N\<close> timer events the run is
  completed and the history has exactly \<open>1 + 3 * N\<close> entries: one \<open>planning\<close> entry,
  then for each step, in this order, one \<open>execution\<close>, one \<open>observation\<close> and one
  \<open>plan-update\<close> entry. Moreover, across any timer event, failing or not, the length of
  the history never decreases: from the state before, through every snapshot delivered,
  to the state after.
\<close>

theorem history_length_of_completed_run:
  assumes "suspended a = Some (AwaitPlan p)"
    and "status (state a) = Planning"
    and "history (state a) = []"
    and "length ts = 1 + 3 * length p"
  shows "status (state (run (map (Resume None) ts) a)) = Completed \<and>
         suspended (run (map (Resume None) ts) a) = None \<and>
         length (history (state (run (map (Resume None) ts) a))) = 1 + 3 * length p \<and>
         map action (history (state (run (map (Resume None) ts) a))) =
           ''planning'' #
           concat (replicate (length p) [''execution'', ''observation'', ''plan-update'']) \<and>
         sorted (length (history (state b)) #
           map (\<lambda>p. length (history (snd p)))
             (drop (length (delivered b)) (delivered (resume thrown now b))) @
           [length (history (state (resume thrown now b)))])"
proof -
  from assms(4) obtain t rest where ts: "ts = t # rest" and rest: "length rest = 3 * length p"
    by (cases ts) auto
  note pl = resume_from_plan [OF assms(1) assms(2), of t]
  have run_ts: "run (map (Resume None) ts) a = run (map (Resume None) rest) (resume None t a)"
    by (simp add: ts run_Cons)
  have acts1: "map action (history (state (resume None t a))) = [''planning'']"
    using actions_from_plan [OF assms(1) assms(2), of t] assms(3) by simp
  have main: "status (state (run (map (Resume None) ts) a)) = Completed \<and>
         suspended (run (map (Resume None) ts) a) = None \<and>
         length (history (state (run (map (Resume None) ts) a))) = 1 + 3 * length p \<and>
         map action (history (state (run (map (Resume None) ts) a))) =
           ''planning'' #
           concat (replicate (length p) [''execution'', ''observation'', ''plan-update''])"
  proof (cases "p = []")
    case True
    with rest have "rest = []" by simp
    then show ?thesis
      using run_ts pl(2) pl(5) [OF True] pl(7) [OF True] assms(3) True acts1
      by (simp add: run_Nil)
  next
    case False
    have lt: "0 < length (plan (state (resume None t a)))"
      using pl(1) False by simp
    have len: "length rest = 3 * (length (plan (state (resume None t a))) - 0)"
      using rest pl(1) by simp
    from steps_complete [OF pl(3) [OF False] pl(4) [OF False] lt len]
    show ?thesis
      using run_ts pl(1) pl(2) assms(3) acts1 by simp
  qed
  with history_grows_in_resume [of b thrown now] show ?thesis
    by blast
qed

theorem history_length_of_completed_run_witness:
  "suspended (startTask ''a'' new_AgentLoop) = Some (AwaitPlan (planTask_plan ''a'')) \<and>
   status (state (startTask ''a'' new_AgentLoop)) = Planning \<and>
   history (state (startTask ''a'' new_AgentLoop)) = [] \<and>
   length (replicate 13 (0::nat)) = 1 + 3 * length (planTask_plan ''a'') \<and>
   status (state (run (map (Resume None) (replicate 13 0)) (startTask ''a'' new_AgentLoop))) =
     Completed \<and>
   length (history (state (run (map (Resume None) (replicate 13 0))
     (startTask ''a'' new_AgentLoop)))) = 13 \<and>
   map action (history (state (run (map (Resume None) (replicate 13 0))
     (startTask ''a'' new_AgentLoop)))) =
     [''planning'',
      ''execution'', ''observation'', ''plan-update'',
      ''execution'', ''observation'', ''plan-update'',
      ''execution'', ''observation'', ''plan-update'',
      ''execution'', ''observation'', ''plan-update'']"
proof -
  have h: "suspended (startTask ''a'' new_AgentLoop) = Some (AwaitPlan (planTask_plan ''a''))"
    "status (state (startTask ''a'' new_AgentLoop)) = Planning"
    "history (state (startTask ''a'' new_AgentLoop)) = []"
    "length (replicate 13 (0::nat)) = 1 + 3 * length (planTask_plan ''a'')"
    by (simp_all add: startTask_def new_AgentLoop_def reset_update_def planTask_plan_def)
  from history_length_of_completed_run [OF h]
  show ?thesis using h by (simp add: planTask_plan_def eval_nat_numeral)
qed

subsection \<open>Unsubscribing\<close>

lemma count_list_filter_neq:
  "count_list (filter (\<lambda>x. x \<noteq> c) xs) y = (if y = c then 0 else count_list xs y)"
  by (induction xs) auto

lemma length_filter_neq:
  "length (filter (\<lambda>x. x \<noteq> c) xs) + count_list xs c = length xs"
  by (induction xs) auto

text \<open>
  The claim C3 fails on the code: the same callback is registered twice, the closure
  returned by one registration is invoked once, and no registration is left, so the
  next state update is delivered to nobody. The same holds for message listeners.
\<close>

theorem unsubscribe_drops_duplicate_registration:
  "updateCallbacks (onStateUpdate 7 (onStateUpdate 7 new_AgentLoop)) = [7, 7] \<and>
   updateCallbacks (unsubscribe 7 (onStateUpdate 7 (onStateUpdate 7 new_AgentLoop))) = [] \<and>
   delivered (startTask ''a''
     (unsubscribe 7 (onStateUpdate 7 (onStateUpdate 7 new_AgentLoop)))) = [] \<and>
   messageListeners (removeMessageListener 7
     (addMessageListener 7 (addMessageListener 7 (new_WebSocketManager ''s'')))) = []"
  by (simp add: onStateUpdate_def unsubscribe_def new_AgentLoop_def startTask_def
      removeMessageListener_def addMessageListener_def new_WebSocketManager_def)

text \<open>
  C3, amended. The closure returned by \<open>onStateUpdate(callback)\<close> removes every
  registration of that callback value and no registration of any other callback, whose
  registrations keep their number and their order; later state updates are delivered to
  exactly the callbacks that remain. When the callback was registered once, it is that
  one registration that goes. The closure returned by \<open>addMessageListener\<close> behaves in
  the same way on the message listeners.
\<close>

theorem unsubscribe_removes_callback_value:
  "cb \<notin> set (updateCallbacks (unsubscribe cb a)) \<and>
   (other \<noteq> cb \<longrightarrow>
      count_list (updateCallbacks (unsubscribe cb a)) other =
      count_list (updateCallbacks a) other) \<and>
   updateCallbacks (unsubscribe cb a) = filter (\<lambda>x. x \<noteq> cb) (updateCallbacks a) \<and>
   (count_list (updateCallbacks a) cb = 1 \<longrightarrow>
      length (updateCallbacks (unsubscribe cb a)) + 1 = length (updateCallbacks a)) \<and>
   delivered (updateState u (unsubscribe cb a)) =
     delivered a @
     map (\<lambda>c. (c, spread (state a) u)) (filter (\<lambda>x. x \<noteq> cb) (updateCallbacks a)) \<and>
   cb \<notin> set (messageListeners (removeMessageListener cb m)) \<and>
   (other \<noteq> cb \<longrightarrow>
      count_list (messageListeners (removeMessageListener cb m)) other =
      count_list (messageListeners m) other) \<and>
   messageListeners (removeMessageListener cb m) = filter (\<lambda>x. x \<noteq> cb) (messageListeners m) \<and>
   (count_list (messageListeners m) cb = 1 \<longrightarrow>
      length (messageListeners (removeMessageListener cb m)) + 1 = length (messageListeners m))"
proof -
  have agent_len: "count_list (updateCallbacks a) cb = 1 \<longrightarrow>
      length (updateCallbacks (unsubscribe cb a)) + 1 = length (updateCallbacks a)"
    using length_filter_neq [of cb "updateCallbacks a"] by (simp add: unsubscribe_def)
  have ws_len: "count_list (messageListeners m) cb = 1 \<longrightarrow>
      length (messageListeners (removeMessageListener cb m)) + 1 = length (messageListeners m)"
    using length_filter_neq [of cb "messageListeners m"] by (simp add: removeMessageListener_def)
  show ?thesis
    using agent_len ws_len
    by (simp add: unsubscribe_def removeMessageListener_def count_list_filter_neq)
qed

theorem unsubscribe_removes_callback_value_witness:
  "(2::nat) \<noteq> 1 \<and>
   count_list (updateCallbacks (onStateUpdate 2 (onStateUpdate 1 new_AgentLoop))) 1 = 1 \<and>
   count_list (messageListeners
     (addMessageListener 2 (addMessageListener 1 (new_WebSocketManager ''s'')))) 1 = 1 \<and>
   updateCallbacks (unsubscribe 1 (onStateUpdate 2 (onStateUpdate 1 new_AgentLoop))) = [2] \<and>
   messageListeners (removeMessageListener 1
     (addMessageListener 2 (addMessageListener 1 (new_WebSocketManager ''s'')))) = [2]"
proof -
  have h: "(2::nat) \<noteq> 1"
    "count_list (updateCallbacks (onStateUpdate 2 (onStateUpdate 1 new_AgentLoop))) 1 = 1"
    "count_list (messageListeners
       (addMessageListener 2 (addMessageListener 1 (new_WebSocketManager ''s'')))) 1 = 1"
    by (simp_all add: onStateUpdate_def new_AgentLoop_def addMessageListener_def
        new_WebSocketManager_def)
  from unsubscribe_removes_callback_value
    [of 1 "onStateUpdate 2 (onStateUpdate 1 new_AgentLoop)" 2 no_keys
        "addMessageListener 2 (addMessageListener 1 (new_WebSocketManager ''s''))"]
  show ?thesis
    using h by (simp add: onStateUpdate_def new_AgentLoop_def addMessageListener_def
        new_WebSocketManager_def)
qed

subsection \<open>Progress\<close>

lemma floor_ratio_bounds:
  assumes "i < n"
  shows "0 \<le> floor_ratio i n k" and "floor_ratio i n k \<le> int k"
proof -
  show "0 \<le> floor_ratio i n k"
    by (simp add: floor_ratio_div)
  have "i * k \<le> n * k"
    using assms by simp
  then have "(i * k) div n \<le> (n * k) div n"
    by (rule div_le_mono)
  also have "(n * k) div n = k"
    using assms by simp
  finally show "floor_ratio i n k \<le> int k"
    by (simp add: floor_ratio_div)
qed

lemma floor_ratio_mono: "k \<le> k' \<Longrightarrow> floor_ratio i n k \<le> floor_ratio i n k'"
  by (simp add: floor_ratio_div div_le_mono)

lemma floor_ratio_le_100:
  assumes "i < n"
  shows "floor_ratio i n 50 \<le> 100" and "floor_ratio i n 70 \<le> 100" and "floor_ratio i n 90 \<le> 100"
  using floor_ratio_bounds(2) [OF assms, of 50] floor_ratio_bounds(2) [OF assms, of 70]
    floor_ratio_bounds(2) [OF assms, of 90]
  by simp_all

text \<open>The position invariant.\<close>

lemma phase_progress_resume:
  assumes "phase_progress a"
  shows "phase_progress (resume thrown now a)"
proof (cases "suspended a")
  case None
  with assms show ?thesis by (simp add: resume_def)
next
  case (Some k)
  with assms show ?thesis
    by (cases k; cases thrown)
      (simp_all add: phase_progress_def resume_def flow_defs update_defs Let_def)
qed

lemma phase_progress_apply_event:
  assumes "phase_progress a"
  shows "phase_progress (apply_event e a)"
proof (cases e)
  case (StartTask task)
  with assms show ?thesis
    by (simp add: phase_progress_def startTask_def)
next
  case (Resume thrown now)
  with assms show ?thesis
    by (simp add: phase_progress_resume)
next
  case (OnStateUpdate cb)
  with assms show ?thesis
    by (simp add: phase_progress_def onStateUpdate_def split: option.splits continuation.splits)
next
  case (Unsubscribe cb)
  with assms show ?thesis
    by (simp add: phase_progress_def unsubscribe_def split: option.splits continuation.splits)
qed

text \<open>A completed state has progress 100.\<close>

lemma completed_full_resume:
  assumes "completed_full a"
  shows "completed_full (resume thrown now a)"
proof (cases "suspended a")
  case None
  with assms show ?thesis by (simp add: resume_def)
next
  case (Some k)
  then show ?thesis
    by (cases k; cases thrown)
      (simp_all add: completed_full_def resume_def flow_defs update_defs Let_def)
qed

lemma completed_full_apply_event:
  assumes "completed_full a"
  shows "completed_full (apply_event e a)"
proof (cases e)
  case (StartTask task)
  with assms show ?thesis
    by (simp add: completed_full_def startTask_def reset_update_def)
next
  case (Resume thrown now)
  with assms show ?thesis
    by (simp add: completed_full_resume)
next
  case (OnStateUpdate cb)
  with assms show ?thesis
    by (simp add: completed_full_def onStateUpdate_def)
next
  case (Unsubscribe cb)
  with assms show ?thesis
    by (simp add: completed_full_def unsubscribe_def)
qed

text \<open>Every progress value lies between 0 and 100.\<close>

lemma trace_in_range_updateState:
  assumes "trace_in_range a"
    and "case set_progress u of None \<Rightarrow> True | Some v \<Rightarrow> 0 \<le> v \<and> v \<le> 100"
  shows "trace_in_range (updateState u a)"
  using assms
  by (auto simp add: trace_in_range_def in_range_def list_all_iff split: option.splits)

lemma trace_in_range_frame [simp]:
  "trace_in_range (a\<lparr>suspended := k\<rparr>) = trace_in_range a"
  "trace_in_range (a\<lparr>taskRunning := b\<rparr>) = trace_in_range a"
  "trace_in_range (a\<lparr>updateCallbacks := cbs\<rparr>) = trace_in_range a"
  by (simp_all add: trace_in_range_def)

lemma trace_in_range_basic:
  assumes "trace_in_range a"
  shows "trace_in_range (updateState (caught_update msg) a)"
    and "trace_in_range (updateState (reset_update task) a)"
    and "trace_in_range (updateState completed_update a)"
    and "trace_in_range (updateState (planned_update p now s) a)"
    and "trace_in_range (updateState (executed_update r now s) a)"
    and "trace_in_range (updateState (observed_update obs now s) a)"
    and "trace_in_range (updateState (replanned_update p now s) a)"
  using assms by (simp_all add: trace_in_range_updateState update_defs)

lemma trace_in_range_phase:
  assumes "trace_in_range a" and "i < n"
  shows "trace_in_range (updateState (executing_update step i n) a)"
    and "trace_in_range (updateState (observing_update i n) a)"
    and "trace_in_range (updateState (updating_update i n) a)"
  using assms floor_ratio_bounds(1) [OF assms(2)] floor_ratio_le_100 [OF assms(2)]
  by (simp_all add: trace_in_range_updateState executing_update_def observing_update_def
      updating_update_def no_keys_def)

lemma trace_in_range_complete:
  "trace_in_range a \<Longrightarrow> trace_in_range (runAgentLoop_complete a)"
  by (simp add: runAgentLoop_complete_def startTask_finally_def trace_in_range_basic)

lemma trace_in_range_catch:
  "trace_in_range a \<Longrightarrow> trace_in_range (startTask_catch msg a)"
  by (simp add: startTask_catch_def startTask_finally_def trace_in_range_basic)

lemma trace_in_range_iterate:
  "trace_in_range a \<Longrightarrow> trace_in_range (runAgentLoop_iterate i a)"
  by (simp add: runAgentLoop_iterate_def Let_def trace_in_range_complete trace_in_range_phase)

lemma set_plan_phase_update [simp]:
  "set_plan (executed_update r now s) = None"
  "set_plan (observed_update obs now s) = None"
  "set_plan (caught_update msg) = None"
  by (simp_all add: update_defs)

lemma trace_in_range_resume:
  assumes "trace_in_range a" and "phase_progress a"
  shows "trace_in_range (resume thrown now a)"
proof (cases "suspended a")
  case None
  with assms show ?thesis by (simp add: resume_def)
next
  case (Some k)
  show ?thesis
  proof (cases k)
    case (AwaitPlan p)
    with Some assms(1) show ?thesis
      by (cases thrown)
        (simp_all add: resume_def planTask_resume_def startTask_finally_def Let_def
          trace_in_range_iterate trace_in_range_basic)
  next
    case (AwaitExec i step)
    with Some assms(2) have "i < length (plan (state a))"
      by (simp add: phase_progress_def)
    with AwaitExec Some assms(1) show ?thesis
      by (cases thrown)
        (simp_all add: resume_def executeStep_resume_def startTask_finally_def Let_def
          trace_in_range_catch trace_in_range_basic trace_in_range_phase)
  next
    case (AwaitObserve i r)
    with Some assms(2) have "i < length (plan (state a))"
      by (simp add: phase_progress_def)
    with AwaitObserve Some assms(1) show ?thesis
      by (cases thrown)
        (simp_all add: resume_def observeResult_resume_def Let_def
          trace_in_range_catch trace_in_range_basic trace_in_range_phase)
  next
    case (AwaitUpdate i obs)
    with Some assms(1) show ?thesis
      by (cases thrown)
        (simp_all add: resume_def updatePlan_resume_def Let_def
          trace_in_range_catch trace_in_range_basic trace_in_range_iterate
          trace_in_range_complete)
  qed
qed

lemma trace_in_range_apply_event:
  assumes "trace_in_range a" and "phase_progress a"
  shows "trace_in_range (apply_event e a)"
proof (cases e)
  case (StartTask task)
  with assms(1) show ?thesis
    by (simp add: startTask_def Let_def trace_in_range_basic)
next
  case (Resume thrown now)
  with assms show ?thesis
    by (simp add: trace_in_range_resume)
next
  case (OnStateUpdate cb)
  with assms(1) show ?thesis
    by (simp add: onStateUpdate_def)
next
  case (Unsubscribe cb)
  with assms(1) show ?thesis
    by (simp add: unsubscribe_def)
qed

lemma reachable_invariants:
  "trace_in_range (run evs new_AgentLoop) \<and> phase_progress (run evs new_AgentLoop) \<and>
   completed_full (run evs new_AgentLoop)"
proof (induction evs rule: rev_induct)
  case Nil
  show ?case
    by (simp add: run_Nil trace_in_range_def in_range_def phase_progress_def completed_full_def
        new_AgentLoop_def)
next
  case (snoc e evs)
  have "run (evs @ [e]) new_AgentLoop = apply_event e (run evs new_AgentLoop)"
    by (simp add: run_append run_Cons run_Nil)
  with snoc show ?case
    by (simp add: trace_in_range_apply_event phase_progress_apply_event
        completed_full_apply_event)
qed

lemma progress_within_step:
  assumes "phase_progress a"
    and "suspended a = Some (AwaitExec i step) \<or> suspended a = Some (AwaitObserve i r)"
  shows "sorted (progress (state a) #
           map (\<lambda>p. progress (snd p))
             (drop (length (delivered a)) (delivered (resume thrown now a))))"
proof -
  note m1 = floor_ratio_mono [of 50 70 i "length (plan (state a))"]
  note m2 = floor_ratio_mono [of 70 90 i "length (plan (state a))"]
  from assms(2) show ?thesis
  proof
    assume s: "suspended a = Some (AwaitExec i step)"
    with assms(1) have "progress (state a) = floor_ratio i (length (plan (state a))) 50"
      by (simp add: phase_progress_def)
    with s m1 show ?thesis
      by (cases thrown)
        (auto simp add: resume_def flow_defs update_defs Let_def sorted_append comp_def
          map_replicate_const)
  next
    assume s: "suspended a = Some (AwaitObserve i r)"
    with assms(1) have "progress (state a) = floor_ratio i (length (plan (state a))) 70"
      by (simp add: phase_progress_def)
    with s m2 show ?thesis
      by (cases thrown)
        (auto simp add: resume_def flow_defs update_defs Let_def sorted_append comp_def
          map_replicate_const)
  qed
qed

text \<open>
  The claim C1 fails on the code. In the run of a task with one subscriber and no
  failure, the progress delivered drops from 10 (after planning) to 0 (step 0 starts
  executing) and from 45 (update phase of step 2) to 37 (step 3 starts executing).
\<close>

theorem progress_decreases_in_four_step_run:
  "progress_seen 1 (run [OnStateUpdate 1, StartTask ''Buy groceries'',
      Resume None 0,
      Resume None 0, Resume None 0, Resume None 0,
      Resume None 0, Resume None 0, Resume None 0,
      Resume None 0, Resume None 0, Resume None 0,
      Resume None 0, Resume None 0, Resume None 0] new_AgentLoop) =
     [0, 10, 0, 0, 0, 0, 0, 0, 12, 12, 17, 17, 22, 22, 25, 25, 35, 35, 45, 45,
      37, 37, 52, 52, 67, 67, 100] \<and>
   \<not> sorted (progress_seen 1 (run [OnStateUpdate 1, StartTask ''Buy groceries'',
      Resume None 0,
      Resume None 0, Resume None 0, Resume None 0,
      Resume None 0, Resume None 0, Resume None 0,
      Resume None 0, Resume None 0, Resume None 0,
      Resume None 0, Resume None 0, Resume None 0] new_AgentLoop))"
proof -
  have seen: "progress_seen 1 (run [OnStateUpdate 1, StartTask ''Buy groceries'',
      Resume None 0,
      Resume None 0, Resume None 0, Resume None 0,
      Resume None 0, Resume None 0, Resume None 0,
      Resume None 0, Resume None 0, Resume None 0,
      Resume None 0, Resume None 0, Resume None 0] new_AgentLoop) =
     [0, 10, 0, 0, 0, 0, 0, 0, 12, 12, 17, 17, 22, 22, 25, 25, 35, 35, 45, 45,
      37, 37, 52, 52, 67, 67, 100]"
    unfolding progress_seen_via_trace four_step_trace by simp
  show ?thesis
    unfolding seen by simp
qed

text \<open>
  C1, amended. In every state that calls of \<open>startTask\<close>, timer events (failing or not)
  and registrations can reach from a new object: every progress value delivered to a
  subscriber lies between 0 and 100; a completed state has progress 100, so the
  terminal snapshot of a completed run is not below any earlier one; an accepted
  \<open>startTask\<close> sets the progress to 0 and delivers 0; and while a step is in its execute
  or observe phase, the values delivered by the next timer event do not fall below the
  current one, so within one step the progress is non-decreasing from its execute
  boundary to its update boundary. Across steps the sequence need not be monotone.
\<close>

theorem progress_bounded_and_monotone_within_step:
  "list_all (\<lambda>p. 0 \<le> progress (snd p) \<and> progress (snd p) \<le> 100)
     (delivered (run evs new_AgentLoop)) \<and>
   (status (state (run evs new_AgentLoop)) = Completed \<longrightarrow>
      progress (state (run evs new_AgentLoop)) = 100) \<and>
   (\<not> taskRunning (run evs new_AgentLoop) \<longrightarrow>
      progress (state (startTask task (run evs new_AgentLoop))) = 0 \<and>
      map (\<lambda>p. progress (snd p))
        (drop (length (delivered (run evs new_AgentLoop)))
           (delivered (startTask task (run evs new_AgentLoop)))) =
        replicate (length (updateCallbacks (run evs new_AgentLoop))) 0) \<and>
   (suspended (run evs new_AgentLoop) = Some (AwaitExec i step) \<or>
    suspended (run evs new_AgentLoop) = Some (AwaitObserve i r) \<longrightarrow>
      sorted (progress (state (run evs new_AgentLoop)) #
        map (\<lambda>p. progress (snd p))
          (drop (length (delivered (run evs new_AgentLoop)))
             (delivered (resume thrown now (run evs new_AgentLoop))))))"
proof -
  note inv = reachable_invariants [of evs]
  have bounds: "list_all (\<lambda>p. 0 \<le> progress (snd p) \<and> progress (snd p) \<le> 100)
     (delivered (run evs new_AgentLoop))"
    using inv by (simp add: trace_in_range_def in_range_def)
  have completed: "status (state (run evs new_AgentLoop)) = Completed \<longrightarrow>
      progress (state (run evs new_AgentLoop)) = 100"
    using inv by (simp add: completed_full_def)
  have reset: "\<not> taskRunning (run evs new_AgentLoop) \<longrightarrow>
      progress (state (startTask task (run evs new_AgentLoop))) = 0 \<and>
      map (\<lambda>p. progress (snd p))
        (drop (length (delivered (run evs new_AgentLoop)))
           (delivered (startTask task (run evs new_AgentLoop)))) =
        replicate (length (updateCallbacks (run evs new_AgentLoop))) 0"
    by (simp add: startTask_def reset_update_def comp_def map_replicate_const)
  have step: "suspended (run evs new_AgentLoop) = Some (AwaitExec i step) \<or>
    suspended (run evs new_AgentLoop) = Some (AwaitObserve i r) \<longrightarrow>
      sorted (progress (state (run evs new_AgentLoop)) #
        map (\<lambda>p. progress (snd p))
          (drop (length (delivered (run evs new_AgentLoop)))
             (delivered (resume thrown now (run evs new_AgentLoop)))))"
    using progress_within_step [of "run evs new_AgentLoop" i step r thrown now] inv by blast
  from bounds completed reset step show ?thesis
    by blast
qed

theorem progress_bounded_and_monotone_within_step_witness:
  "\<not> taskRunning (run [] new_AgentLoop) \<and>
   progress (state (startTask ''a'' (run [] new_AgentLoop))) = 0 \<and>
   suspended (run [OnStateUpdate 1, StartTask ''a'', Resume None 0] new_AgentLoop) =
     Some (AwaitExec 0 (lit_task @ ''a'' @ lit_gather)) \<and>
   sorted (progress (state (run [OnStateUpdate 1, StartTask ''a'', Resume None 0] new_AgentLoop)) #
     map (\<lambda>p. progress (snd p))
       (drop (length (delivered (run [OnStateUpdate 1, StartTask ''a'', Resume None 0] new_AgentLoop)))
          (delivered (resume None 1
             (run [OnStateUpdate 1, StartTask ''a'', Resume None 0] new_AgentLoop))))) \<and>
   status (state (run [StartTask ''a'', Resume (Some ''x'') 0, StartTask ''b'',
      Resume None 0,
      Resume None 0, Resume None 0, Resume None 0,
      Resume None 0, Resume None 0, Resume None 0,
      Resume None 0, Resume None 0, Resume None 0,
      Resume None 0, Resume None 0, Resume None 0] new_AgentLoop)) = Completed \<and>
   progress (state (run [StartTask ''a'', Resume (Some ''x'') 0, StartTask ''b'',
      Resume None 0,
      Resume None 0, Resume None 0, Resume None 0,
      Resume None 0, Resume None 0, Resume None 0,
      Resume None 0, Resume None 0, Resume None 0,
      Resume None 0, Resume None 0, Resume None 0] new_AgentLoop)) = 100"
proof -
  have idle: "\<not> taskRunning (run [] new_AgentLoop)"
    by (simp add: run_def new_AgentLoop_def)
  have exec: "suspended (run [OnStateUpdate 1, StartTask ''a'', Resume None 0] new_AgentLoop) =
     Some (AwaitExec 0 (lit_task @ ''a'' @ lit_gather))"
    by (simp add: run_def resume_def flow_defs update_defs startTask_def onStateUpdate_def
        new_AgentLoop_def planTask_plan_def Let_def)
  have fin: "status (state (run [StartTask ''a'', Resume (Some ''x'') 0, StartTask ''b'',
      Resume None 0,
      Resume None 0, Resume None 0, Resume None 0,
      Resume None 0, Resume None 0, Resume None 0,
      Resume None 0, Resume None 0, Resume None 0,
      Resume None 0, Resume None 0, Resume None 0] new_AgentLoop)) = Completed"
    by (simp add: run_def resume_def flow_defs update_defs startTask_def
        new_AgentLoop_def planTask_plan_def Let_def)
  from progress_bounded_and_monotone_within_step [of "[]" "''a''"] idle
  have c1: "progress (state (startTask ''a'' (run [] new_AgentLoop))) = 0"
    by blast
  from progress_bounded_and_monotone_within_step
    [of "[OnStateUpdate 1, StartTask ''a'', Resume None 0]" _ 0 "lit_task @ ''a'' @ lit_gather"
        _ None 1] exec
  have c2: "sorted (progress (state (run [OnStateUpdate 1, StartTask ''a'', Resume None 0] new_AgentLoop)) #
     map (\<lambda>p. progress (snd p))
       (drop (length (delivered (run [OnStateUpdate 1, StartTask ''a'', Resume None 0] new_AgentLoop)))
          (delivered (resume None 1
             (run [OnStateUpdate 1, StartTask ''a'', Resume None 0] new_AgentLoop)))))"
    by blast
  from progress_bounded_and_monotone_within_step
    [of "[StartTask ''a'', Resume (Some ''x'') 0, StartTask ''b'',
      Resume None 0,
      Resume None 0, Resume None 0, Resume None 0,
      Resume None 0, Resume None 0, Resume None 0,
      Resume None 0, Resume None 0, Resume None 0,
      Resume None 0, Resume None 0, Resume None 0]"] fin
  have c3: "progress (state (run [StartTask ''a'', Resume (Some ''x'') 0, StartTask ''b'',
      Resume None 0,
      Resume None 0, Resume None 0, Resume None 0,
      Resume None 0, Resume None 0, Resume None 0,
      Resume None 0, Resume None 0, Resume None 0,
      Resume None 0, Resume None 0, Resume None 0] new_AgentLoop)) = 100"
    by blast
  from idle exec fin c1 c2 c3 show ?thesis
    by blast
qed

section \<open>Properties of WebSocketManager\<close>

subsection \<open>Basic facts\<close>

lemma ws_updateState_fields [simp]:
  "socket (ws_updateState u m) = socket m"
  "sockets (ws_updateState u m) = sockets m"
  "timers (ws_updateState u m) = timers m"
  "reconnectAttempts (ws_updateState u m) = reconnectAttempts m"
  "sessionId (ws_updateState u m) = sessionId m"
  "messageListeners (ws_updateState u m) = messageListeners m"
  "stateChangeListeners (ws_updateState u m) = stateChangeListeners m"
  "ws_state (ws_updateState u m) = ws_spread (ws_state m) u"
  by (simp_all add: ws_updateState_def Let_def)

lemma length_socket_close [simp]: "length (socket_close h ss) = length ss"
  by (simp add: socket_close_def)

subsection \<open>The singleton\<close>

text \<open>
  The claim C4 fails on the code: after \<open>getWebSocketManager\<close> was called for session
  \<open>s1\<close>, the call for session \<open>s2\<close> returns the manager of \<open>s1\<close>.
\<close>

theorem getWebSocketManager_ignores_second_session:
  "''s1'' \<noteq> ''s2'' \<and>
   sessionId (fst (getWebSocketManager ''s2'' (snd (getWebSocketManager ''s1'' None)))) = ''s1'' \<and>
   fst (getWebSocketManager ''s2'' (snd (getWebSocketManager ''s1'' None))) =
     fst (getWebSocketManager ''s1'' None)"
  by (simp add: getWebSocketManager_def new_WebSocketManager_def Let_def)

text \<open>
  C4, amended. The module keeps a single manager. The first call of
  \<open>getWebSocketManager\<close> creates it, bound to the session identifier of that call.
  Every later call returns that manager, whatever identifier it is given, and leaves
  the module variable as it is: after \<open>getWebSocketManager(s1)\<close>, the call
  \<open>getWebSocketManager(s2)\<close> returns the manager whose \<open>sessionId\<close> is \<open>s1\<close>.
\<close>

theorem getWebSocketManager_is_singleton:
  "getWebSocketManager s1 None = (new_WebSocketManager s1, Some (new_WebSocketManager s1)) \<and>
   sessionId (fst (getWebSocketManager s1 None)) = s1 \<and>
   getWebSocketManager s2 (Some m) = (m, Some m) \<and>
   sessionId (fst (getWebSocketManager s2 (snd (getWebSocketManager s1 None)))) = s1"
  by (simp add: getWebSocketManager_def new_WebSocketManager_def Let_def)

subsection \<open>Explicit disconnect\<close>

text \<open>
  The claim C2 fails on the code. A socket is opened and opens, then closes abnormally
  (code 1006), which schedules a reconnect after 1000 ms. \<open>disconnect\<close> follows. The
  timer is still pending after it, and when it fires, with no call of \<open>connect\<close> from
  outside in between, the manager holds a new socket that is connecting.
\<close>

theorem reconnect_fires_after_disconnect:
  "timers (disconnect (socket_closed 0 1006 []
     (socket_opened 0 (connect None (new_WebSocketManager ''s''))))) = [1000] \<and>
   socket (disconnect (socket_closed 0 1006 []
     (socket_opened 0 (connect None (new_WebSocketManager ''s''))))) = None \<and>
   socket (timer_fires 0 None (disconnect (socket_closed 0 1006 []
     (socket_opened 0 (connect None (new_WebSocketManager ''s'')))))) = Some 1 \<and>
   sockets (timer_fires 0 None (disconnect (socket_closed 0 1006 []
     (socket_opened 0 (connect None (new_WebSocketManager ''s'')))))) = [CLOSED, CONNECTING]"
  by (simp add: timer_fires_def disconnect_def socket_closed_def socket_opened_def connect_def
      new_WebSocketManager_def handleClose_def handleOpen_def socket_live_def socket_close_def
      maxReconnectAttempts_def reconnectDelay_def Let_def)

text \<open>
  C2, amended. On a manager that holds a socket, \<open>disconnect\<close> closes and drops the
  socket, sets the reconnect-attempt counter to 0 and the connection state to
  \<open>{isConnected: false, error: null}\<close>; on a manager that holds no socket it changes
  nothing. It cancels no timer: the pending reconnect timers are the same before and
  after, and when one of them fires after the disconnect, its \<open>connect\<close> call gives the
  manager a new socket.
\<close>

theorem disconnect_keeps_timers:
  "(socket m = None \<longrightarrow> disconnect m = m) \<and>
   (socket m \<noteq> None \<longrightarrow>
      socket (disconnect m) = None \<and>
      reconnectAttempts (disconnect m) = 0 \<and>
      ws_state (disconnect m) = \<lparr>isConnected = False, ws_error = None\<rparr>) \<and>
   timers (disconnect m) = timers m \<and>
   (k < length (timers m) \<longrightarrow>
      socket (timer_fires k None (disconnect m)) = Some (length (sockets m)) \<and>
      sockets (timer_fires k None (disconnect m)) =
        (case socket m of None \<Rightarrow> sockets m | Some h \<Rightarrow> socket_close h (sockets m)) @
        [CONNECTING])"
  by (cases "socket m")
    (simp_all add: disconnect_def timer_fires_def connect_def socket_live_def ws_spread_def)

theorem disconnect_keeps_timers_witness:
  "socket (socket_closed 0 1006 [] (connect None (new_WebSocketManager ''s''))) \<noteq> None \<and>
   socket (new_WebSocketManager ''s'') = None \<and>
   0 < length (timers (socket_closed 0 1006 [] (connect None (new_WebSocketManager ''s'')))) \<and>
   reconnectAttempts (socket_closed 0 1006 [] (connect None (new_WebSocketManager ''s''))) = 1 \<and>
   reconnectAttempts
     (disconnect (socket_closed 0 1006 [] (connect None (new_WebSocketManager ''s'')))) = 0 \<and>
   timers (disconnect (socket_closed 0 1006 [] (connect None (new_WebSocketManager ''s'')))) =
     [1000] \<and>
   socket (timer_fires 0 None
     (disconnect (socket_closed 0 1006 [] (connect None (new_WebSocketManager ''s''))))) = Some 1 \<and>
   disconnect (new_WebSocketManager ''s'') = new_WebSocketManager ''s''"
proof -
  have h: "socket (socket_closed 0 1006 [] (connect None (new_WebSocketManager ''s''))) \<noteq> None"
    "0 < length (timers (socket_closed 0 1006 [] (connect None (new_WebSocketManager ''s''))))"
    "reconnectAttempts (socket_closed 0 1006 [] (connect None (new_WebSocketManager ''s''))) = 1"
    "timers (socket_closed 0 1006 [] (connect None (new_WebSocketManager ''s''))) = [1000]"
    "sockets (socket_closed 0 1006 [] (connect None (new_WebSocketManager ''s''))) = [CLOSED]"
    by (simp_all add: socket_closed_def connect_def new_WebSocketManager_def handleClose_def
        socket_live_def maxReconnectAttempts_def reconnectDelay_def Let_def)
  have n: "socket (new_WebSocketManager ''s'') = None"
    by (simp add: new_WebSocketManager_def)
  from disconnect_keeps_timers
        [of "socket_closed 0 1006 [] (connect None (new_WebSocketManager ''s''))" 0]
       disconnect_keeps_timers [of "new_WebSocketManager ''s''" 0]
  show ?thesis
    using h n by simp
qed

subsection \<open>Reconnection with backoff\<close>



end
